theory Spec2Isabelle
  imports Complex_Main "HOL-Library.Multiset"
begin

section \<open>Randomness\<close>

text \<open>
  The simulation draws from Python's module-level generator. The generator is modelled as
  an explicit stream of raw words, threaded through every function that draws:
  \<^item> \<open>random.random()\<close> is the 53-bit fraction \<open>(w mod 2^53) / 2^53\<close>, a value of
    \<open>[0, 1)\<close> (this is how CPython builds the float, and every such fraction is a double);
  \<^item> \<open>random.randint(0, 1)\<close> and \<open>random.choice\<close> on a list of length \<open>n\<close> reduce the next
    word modulo the number of outcomes;
  \<^item> \<open>random.uniform(a, b)\<close> is \<open>a + (b - a) * random()\<close>;
  \<^item> \<open>random.sample(population, k)\<close> removes \<open>k\<close> positions from a shrinking pool.
  Floating-point values are carried as the reals they denote, except where a float is
  truncated to an integer (\<open>int_of_float_product\<close> below), which is modelled bit for bit.
\<close>

type_synonym rng = "nat \<Rightarrow> nat"

definition rng_tail :: "rng \<Rightarrow> rng" where
  "rng_tail src = (\<lambda>k. src (Suc k))"

definition random_random :: "rng \<Rightarrow> real \<times> rng" where
  "random_random src = (real (src 0 mod 9007199254740992) / 9007199254740992, rng_tail src)"

definition random_randint01 :: "rng \<Rightarrow> int \<times> rng" where
  "random_randint01 src = (int (src 0 mod 2), rng_tail src)"

definition random_choice :: "'a list \<Rightarrow> rng \<Rightarrow> 'a \<times> rng" where
  "random_choice xs src = (xs ! (src 0 mod length xs), rng_tail src)"

definition random_uniform :: "real \<Rightarrow> real \<Rightarrow> rng \<Rightarrow> real \<times> rng" where
  "random_uniform a b src = (let (u, src1) = random_random src in (a + (b - a) * u, src1))"

fun random_sample :: "'a list \<Rightarrow> nat \<Rightarrow> rng \<Rightarrow> 'a list \<times> rng" where
  "random_sample pool 0 src = ([], src)"
| "random_sample pool (Suc k) src =
     (let j = src 0 mod length pool;
          (rest, src1) = random_sample (take j pool @ drop (Suc j) pool) k (rng_tail src)
      in (pool ! j # rest, src1))"

text \<open>Streams used to state runs: the stream after \<open>n\<close> draws, a constant stream, and a
  finite list of words followed by a constant.\<close>

definition rng_drop :: "nat \<Rightarrow> rng \<Rightarrow> rng" where
  "rng_drop n src = (\<lambda>k. src (k + n))"

definition constant_rng :: "nat \<Rightarrow> rng" where
  "constant_rng c = (\<lambda>k. c)"

definition prefix_rng :: "nat list \<Rightarrow> nat \<Rightarrow> rng" where
  "prefix_rng ws c = (\<lambda>k. if k < length ws then ws ! k else c)"

section \<open>Errors\<close>

datatype error = ZeroDivisionError | IndexError | ValueError

section \<open>Basis (basis.py)\<close>

datatype BasisType = RECTILINEAR | DIAGONAL

definition random_basis :: "rng \<Rightarrow> BasisType \<times> rng" where
  "random_basis src = random_choice [RECTILINEAR, DIAGONAL] src"

fun generate_random_bases :: "nat \<Rightarrow> rng \<Rightarrow> BasisType list \<times> rng" where
  "generate_random_bases 0 src = ([], src)"
| "generate_random_bases (Suc n) src =
     (let (b, src1) = random_basis src;
          (bs, src2) = generate_random_bases n src1
      in (b # bs, src2))"

definition measure_photon :: "int \<Rightarrow> BasisType \<Rightarrow> BasisType \<Rightarrow> rng \<Rightarrow> (int \<times> bool) \<times> rng" where
  "measure_photon b preparation_basis measurement_basis src =
     (if preparation_basis = measurement_basis then
        (let detector_error = 0.008;
             (u, src1) = random_random src
         in ((if u < detector_error then 1 - b else b, True), src1))
      else
        (let (measured_bit, src1) = random_choice [0, 1] src
         in ((measured_bit, False), src1)))"

section \<open>Photon (photon.py)\<close>

datatype PhotonState = HORIZONTAL | VERTICAL | DIAGONAL_45 | DIAGONAL_135

record Photon =
  pbit :: int
  preparation_basis :: BasisType
  pstate :: PhotonState
  is_transmitted :: bool
  is_intercepted :: bool

definition Photon_create :: "int \<Rightarrow> BasisType \<Rightarrow> Photon" where
  "Photon_create b basis =
     (let st = (if basis = RECTILINEAR
                then (if b = 0 then HORIZONTAL else VERTICAL)
                else (if b = 0 then DIAGONAL_45 else DIAGONAL_135))
      in \<lparr>pbit = b, preparation_basis = basis, pstate = st,
          is_transmitted = True, is_intercepted = False\<rparr>)"

section \<open>Privacy amplification (qber.py)\<close>

text \<open>
  \<open>int(len(raw_key) * shrink_factor)\<close> multiplies two doubles and truncates. A double
  constant is given by its exact value \<open>m / 2^e\<close>; the product of \<open>float(n)\<close> and the
  constant is the exact product rounded to 53 significant bits, ties to even.
\<close>

fun bit_length :: "nat \<Rightarrow> nat" where
  "bit_length n = (if n = 0 then 0 else Suc (bit_length (n div 2)))"

declare bit_length.simps [simp del]

definition round_to_53_bits :: "nat \<Rightarrow> nat" where
  "round_to_53_bits N =
     (let L = bit_length N in
      if L \<le> 53 then N
      else (let s = L - 53; q = N div 2 ^ s; r = N mod 2 ^ s; half = 2 ^ (s - 1)
            in (if half < r \<or> (r = half \<and> odd q) then q + 1 else q) * 2 ^ s))"

definition int_of_float_product :: "nat \<Rightarrow> nat \<Rightarrow> nat \<Rightarrow> nat" where
  "int_of_float_product n m e = round_to_53_bits (round_to_53_bits n * m) div 2 ^ e"

text \<open>The doubles written \<open>0.9\<close>, \<open>0.7\<close> and \<open>0.5\<close> in the source, as mantissa and exponent.\<close>

definition shrink_factor :: "real \<Rightarrow> (nat \<times> nat) option" where
  "shrink_factor qber =
     (if qber < 5 then Some (8106479329266893, 53)
      else if qber < 11 then Some (3152519739159347, 52)
      else if qber < 15 then Some (1, 1)
      else None)"

definition apply_privacy_amplification :: "'a list \<Rightarrow> real \<Rightarrow> 'a list" where
  "apply_privacy_amplification raw_key qber =
     (case shrink_factor qber of
        None \<Rightarrow> []
      | Some (m, e) \<Rightarrow>
          (let new_length = max 1 (int_of_float_product (length raw_key) m e)
           in take new_length raw_key))"


section \<open>QBER estimation (qber.py)\<close>

fun count_errors :: "int list \<Rightarrow> int option list \<Rightarrow> nat list \<Rightarrow> error + nat" where
  "count_errors alice_bits bob_bits [] = Inr 0"
| "count_errors alice_bits bob_bits (idx # rest) =
     (if length alice_bits \<le> idx \<or> length bob_bits \<le> idx then Inl IndexError
      else (case count_errors alice_bits bob_bits rest of
              Inl e \<Rightarrow> Inl e
            | Inr errors \<Rightarrow>
                Inr (if Some (alice_bits ! idx) \<noteq> bob_bits ! idx then Suc errors else errors)))"

definition calculate_qber ::
  "int list \<Rightarrow> int option list \<Rightarrow> nat list \<Rightarrow> int option \<Rightarrow> rng
     \<Rightarrow> error + ((real \<times> nat list \<times> nat \<times> nat) \<times> rng)" where
  "calculate_qber alice_bits bob_bits matching_indices test_sample_size0 src =
     (if matching_indices = [] then Inr ((0, [], 0, 0), src)
      else
        (let requested = (case test_sample_size0 of
                            None \<Rightarrow> max 10 (int (length matching_indices) div 2)
                          | Some k \<Rightarrow> k);
             test_sample_size = min requested (int (length matching_indices))
         in if test_sample_size < 0 then Inl ValueError
            else
              (let (tested_indices, src1) =
                     random_sample matching_indices (nat test_sample_size) src
               in (case count_errors alice_bits bob_bits tested_indices of
                     Inl e \<Rightarrow> Inl e
                   | Inr errors \<Rightarrow>
                       (let qber =
                              (if errors = 0 \<and> 0 < test_sample_size
                               then (let q = 100 / real_of_int test_sample_size
                                     in if q < 0.5 then 0.5 else q)
                               else (if 0 < test_sample_size
                                     then (real errors / real_of_int test_sample_size) * 100
                                     else 0))
                        in Inr ((qber, tested_indices, errors, nat test_sample_size), src1))))))"

section \<open>Weather (weather.py)\<close>

definition LOSS_FACTORS :: "string \<Rightarrow> real option" where
  "LOSS_FACTORS = map_of [(''clear'', 1.0), (''light_haze'', 1.3),
                           (''heavy_clouds'', 2.5), (''rain'', 10.0)]"

record weather_stats_rec =
  weather_condition :: string
  additional_loss_factor :: real
  photons_lost_to_weather :: nat
  total_photons_lost :: nat

fun weather_loop :: "real \<Rightarrow> int option list \<Rightarrow> rng \<Rightarrow> int option list \<times> nat \<times> rng" where
  "weather_loop t [] src = ([], 0, src)"
| "weather_loop t (None # ps) src =
     (let (result, lost, src') = weather_loop t ps src in (None # result, lost, src'))"
| "weather_loop t (Some b # ps) src =
     (let (u, src1) = random_random src;
          (result, lost, src') = weather_loop t ps src1
      in if u < t then (None # result, Suc lost, src') else (Some b # result, lost, src'))"

definition apply_weather_effects ::
  "int option list \<Rightarrow> string \<Rightarrow> rng \<Rightarrow> error + (int option list \<times> weather_stats_rec \<times> rng)" where
  "apply_weather_effects photon_states weather0 src =
     (let (weather, loss_factor) =
            (case LOSS_FACTORS weather0 of
               None \<Rightarrow> (''clear'', 1.0)
             | Some l \<Rightarrow> (weather0, l))
      in if photon_states = [] then Inl ZeroDivisionError
         else
           (let base_loss_rate =
                  real (length (filter (\<lambda>p. p = None) photon_states)) / real (length photon_states);
                weather_loss_rate = min 0.95 (base_loss_rate * loss_factor);
                (result, lost, src1) =
                  weather_loop (weather_loss_rate - base_loss_rate) photon_states src
            in Inr (result,
                    \<lparr>weather_condition = weather, additional_loss_factor = loss_factor,
                     photons_lost_to_weather = lost,
                     total_photons_lost = length (filter (\<lambda>p. p = None) result)\<rparr>,
                    src1)))"

section \<open>Attack strategies (attacks.py)\<close>

datatype stat = Count nat | Text string

type_synonym attack_stats = "(string \<times> stat) list"

fun intercept_resend_loop ::
  "real \<Rightarrow> string list \<Rightarrow> nat \<Rightarrow> int option list \<Rightarrow> rng
     \<Rightarrow> error + (int option list \<times> nat \<times> nat \<times> rng)" where
  "intercept_resend_loop rate bases i [] src = Inr ([], 0, 0, src)"
| "intercept_resend_loop rate bases i (None # ps) src =
     (case intercept_resend_loop rate bases (Suc i) ps src of
        Inl e \<Rightarrow> Inl e
      | Inr (result, n, k, src') \<Rightarrow> Inr (None # result, n, k, src'))"
| "intercept_resend_loop rate bases i (Some photon # ps) src =
     (let (u, src1) = random_random src in
      if u < rate then
        (let (eve_basis, src2) = random_choice [''+'', ''x''] src1 in
         if length bases \<le> i then Inl IndexError
         else if eve_basis \<noteq> bases ! i then
           (let (v, src3) = random_random src2 in
            case intercept_resend_loop rate bases (Suc i) ps src3 of
              Inl e \<Rightarrow> Inl e
            | Inr (result, n, k, src') \<Rightarrow>
                (if v < 0.5 then Inr (Some (1 - photon) # result, Suc n, Suc k, src')
                 else Inr (Some photon # result, Suc n, k, src')))
         else
           (case intercept_resend_loop rate bases (Suc i) ps src2 of
              Inl e \<Rightarrow> Inl e
            | Inr (result, n, k, src') \<Rightarrow> Inr (Some photon # result, Suc n, k, src')))
      else
        (case intercept_resend_loop rate bases (Suc i) ps src1 of
           Inl e \<Rightarrow> Inl e
         | Inr (result, n, k, src') \<Rightarrow> Inr (Some photon # result, n, k, src')))"

definition apply_intercept_resend_attack ::
  "int option list \<Rightarrow> string list \<Rightarrow> real \<Rightarrow> rng
     \<Rightarrow> error + (int option list \<times> attack_stats \<times> rng)" where
  "apply_intercept_resend_attack photon_states bases interception_rate src =
     (case intercept_resend_loop interception_rate bases 0 photon_states src of
        Inl e \<Rightarrow> Inl e
      | Inr (result, intercepted, errors_introduced, src') \<Rightarrow>
          Inr (result,
               [(''attack_type'', Text ''Intercept-Resend''),
                (''photons_intercepted'', Count intercepted),
                (''errors_introduced'', Count errors_introduced),
                (''expected_qber'', Text ''25-30%''),
                (''detection_difficulty'', Text ''Easy'')],
               src'))"

fun beam_splitting_loop :: "real \<Rightarrow> int option list \<Rightarrow> rng \<Rightarrow> int option list \<times> nat \<times> rng" where
  "beam_splitting_loop tap_rate [] src = ([], 0, src)"
| "beam_splitting_loop tap_rate (None # ps) src =
     (let (result, tapped, src') = beam_splitting_loop tap_rate ps src
      in (None # result, tapped, src'))"
| "beam_splitting_loop tap_rate (Some photon # ps) src =
     (let (u, src1) = random_random src;
          (result, tapped, src') = beam_splitting_loop tap_rate ps src1
      in if u < tap_rate then (None # result, Suc tapped, src')
         else (Some photon # result, tapped, src'))"

definition apply_beam_splitting_attack ::
  "int option list \<Rightarrow> real \<Rightarrow> rng \<Rightarrow> error + (int option list \<times> attack_stats \<times> rng)" where
  "apply_beam_splitting_attack photon_states tap_rate src =
     (let (result, tapped, src') = beam_splitting_loop tap_rate photon_states src
      in Inr (result,
              [(''attack_type'', Text ''Beam-Splitting''),
               (''photons_tapped'', Count tapped),
               (''errors_introduced'', Count 0),
               (''expected_qber'', Text ''5-10% (normal + small increase)''),
               (''detection_difficulty'', Text ''Hard - looks like normal loss'')],
              src'))"

fun pns_loop ::
  "real \<Rightarrow> string list \<Rightarrow> nat \<Rightarrow> int option list \<Rightarrow> rng
     \<Rightarrow> error + (int option list \<times> nat \<times> nat \<times> rng)" where
  "pns_loop rate bases i [] src = Inr ([], 0, 0, src)"
| "pns_loop rate bases i (None # ps) src =
     (case pns_loop rate bases (Suc i) ps src of
        Inl e \<Rightarrow> Inl e
      | Inr (result, n, k, src') \<Rightarrow> Inr (None # result, n, k, src'))"
| "pns_loop rate bases i (Some photon # ps) src =
     (let (u, src1) = random_random src in
      if u < rate then
        (let (eve_basis, src2) = random_choice [''+'', ''x''] src1 in
         if length bases \<le> i then Inl IndexError
         else if eve_basis \<noteq> bases ! i then
           (let (v, src3) = random_random src2 in
            case pns_loop rate bases (Suc i) ps src3 of
              Inl e \<Rightarrow> Inl e
            | Inr (result, n, k, src') \<Rightarrow>
                (if v < 0.1 then Inr (Some (1 - photon) # result, Suc n, Suc k, src')
                 else Inr (Some photon # result, Suc n, k, src')))
         else
           (case pns_loop rate bases (Suc i) ps src2 of
              Inl e \<Rightarrow> Inl e
            | Inr (result, n, k, src') \<Rightarrow> Inr (Some photon # result, Suc n, k, src')))
      else
        (case pns_loop rate bases (Suc i) ps src1 of
           Inl e \<Rightarrow> Inl e
         | Inr (result, n, k, src') \<Rightarrow> Inr (Some photon # result, n, k, src')))"

definition apply_pns_attack ::
  "int option list \<Rightarrow> string list \<Rightarrow> real \<Rightarrow> rng
     \<Rightarrow> error + (int option list \<times> attack_stats \<times> rng)" where
  "apply_pns_attack photon_states bases multi_photon_rate src =
     (case pns_loop multi_photon_rate bases 0 photon_states src of
        Inl e \<Rightarrow> Inl e
      | Inr (result, exploited, errors, src') \<Rightarrow>
          Inr (result,
               [(''attack_type'', Text ''Photon Number Splitting (PNS)''),
                (''multi_photon_pulses_exploited'', Count exploited),
                (''errors_introduced'', Count errors),
                (''expected_qber'', Text ''3-7% (very stealthy)''),
                (''detection_difficulty'', Text ''Very Hard'')],
               src'))"

fun detector_blinding_loop ::
  "real \<Rightarrow> int option list \<Rightarrow> rng \<Rightarrow> int option list \<times> nat \<times> rng" where
  "detector_blinding_loop blind_rate [] src = ([], 0, src)"
| "detector_blinding_loop blind_rate (None # ps) src =
     (let (result, blinded, src') = detector_blinding_loop blind_rate ps src
      in (None # result, blinded, src'))"
| "detector_blinding_loop blind_rate (Some photon # ps) src =
     (let (u, src1) = random_random src in
      if u < blind_rate then
        (let (fake_bit, src2) = random_randint01 src1;
             (result, blinded, src') = detector_blinding_loop blind_rate ps src2
         in (Some fake_bit # result, Suc blinded, src'))
      else
        (let (result, blinded, src') = detector_blinding_loop blind_rate ps src1
         in (Some photon # result, blinded, src')))"

definition apply_detector_blinding_attack ::
  "int option list \<Rightarrow> string list \<Rightarrow> real \<Rightarrow> rng
     \<Rightarrow> error + (int option list \<times> attack_stats \<times> rng)" where
  "apply_detector_blinding_attack photon_states bases blind_rate src =
     (let (result, blinded, src') = detector_blinding_loop blind_rate photon_states src
      in Inr (result,
              [(''attack_type'', Text ''Detector Blinding''),
               (''detectors_blinded'', Count blinded),
               (''fake_signals_sent'', Count blinded),
               (''expected_qber'', Text ''15-20%''),
               (''detection_difficulty'', Text ''Medium - unusual detector behavior'')],
              src'))"

fun jammed_link_loop :: "int option list \<Rightarrow> rng \<Rightarrow> int option list \<times> nat \<times> rng" where
  "jammed_link_loop [] src = ([], 0, src)"
| "jammed_link_loop (None # ps) src =
     (let (result, noise, src') = jammed_link_loop ps src in (None # result, noise, src'))"
| "jammed_link_loop (Some photon # ps) src =
     (let (u, src1) = random_random src in
      if u < 0.6 then
        (let (result, noise, src') = jammed_link_loop ps src1
         in (None # result, Suc noise, src'))
      else
        (let (v, src2) = random_random src1;
             (result, noise, src') = jammed_link_loop ps src2
         in if v < 0.5 then (Some (1 - photon) # result, noise, src')
            else (Some photon # result, noise, src')))"

definition apply_jammed_link_attack ::
  "int option list \<Rightarrow> rng \<Rightarrow> error + (int option list \<times> attack_stats \<times> rng)" where
  "apply_jammed_link_attack photon_states src =
     (let (result, noise_photons, src') = jammed_link_loop photon_states src
      in Inr (result,
              [(''attack_type'', Text ''Jammed Link (DoS)''),
               (''photons_lost_to_jamming'', Count noise_photons),
               (''errors_introduced'', Text ''High''),
               (''expected_qber'', Text ''>40% (obvious attack)''),
               (''detection_difficulty'', Text ''Trivial - QKD will abort'')],
              src'))"

definition apply_eve_attack ::
  "int option list \<Rightarrow> string list \<Rightarrow> string \<Rightarrow> real \<Rightarrow> rng
     \<Rightarrow> error + (int option list \<times> attack_stats \<times> rng)" where
  "apply_eve_attack photon_states bases attack_type intensity src =
     (if attack_type = ''intercept_resend''
        then apply_intercept_resend_attack photon_states bases intensity src
      else if attack_type = ''beam_splitting''
        then apply_beam_splitting_attack photon_states (intensity * 0.6) src
      else if attack_type = ''photon_number_splitting''
        then apply_pns_attack photon_states bases 0.15 src
      else if attack_type = ''detector_blinding''
        then apply_detector_blinding_attack photon_states bases (intensity * 0.8) src
      else if attack_type = ''jammed_link''
        then apply_jammed_link_attack photon_states src
      else apply_intercept_resend_attack photon_states bases intensity src)"


section \<open>The object store\<close>

text \<open>
  Photons are mutable objects that the driver later recognises by \<open>id(photon)\<close>. They live
  in a store, a list of photon values; a reference is a position in it, and a new object is
  appended, so a reference is never reused.
\<close>

type_synonym addr = nat

type_synonym heap = "Photon list"

fun alloc_photons :: "(int \<times> BasisType) list \<Rightarrow> heap \<Rightarrow> addr list \<times> heap" where
  "alloc_photons [] h = ([], h)"
| "alloc_photons ((b, basis) # rest) h =
     (let (as, h') = alloc_photons rest (h @ [Photon_create b basis])
      in (length h # as, h'))"

section \<open>Eve (eve.py)\<close>

record measurement =
  m_index :: nat
  m_eve_basis :: BasisType
  m_measured_bit :: int
  m_bases_matched :: bool
  m_original_bit :: int

record EveAttack =
  interception_rate :: real
  intercepted_count :: nat
  measurements :: "measurement list"

definition EveAttack_init :: "real \<Rightarrow> EveAttack" where
  "EveAttack_init rate = \<lparr>interception_rate = rate, intercepted_count = 0, measurements = []\<rparr>"

text \<open>
  The loop of \<open>intercept_and_resend\<close>; \<open>i\<close> is the position of \<open>enumerate\<close>. It returns
  the modified photon list, Eve's bases and the measurements, in loop order.
\<close>

fun intercept_loop ::
  "real \<Rightarrow> BasisType list \<Rightarrow> nat \<Rightarrow> addr list \<Rightarrow> heap \<Rightarrow> rng
     \<Rightarrow> error + (addr list \<times> BasisType option list \<times> measurement list \<times> heap \<times> rng)" where
  "intercept_loop rate alice_bases i [] h src = Inr ([], [], [], h, src)"
| "intercept_loop rate alice_bases i (photon # ps) h src =
     (let (u, src1) = random_random src in
      if u < rate then
        (let h1 = h[photon := (h ! photon)\<lparr>is_intercepted := True\<rparr>];
             (eve_basis, src2) = random_basis src1
         in if length alice_bases \<le> i then Inl IndexError
            else
              (let ((measured_bit, bases_matched), src3) =
                     measure_photon (pbit (h1 ! photon)) (alice_bases ! i) eve_basis src2;
                   m = \<lparr>m_index = i, m_eve_basis = eve_basis, m_measured_bit = measured_bit,
                        m_bases_matched = bases_matched, m_original_bit = pbit (h1 ! photon)\<rparr>;
                   new_photon = length h1;
                   h2 = h1 @ [(Photon_create measured_bit eve_basis)\<lparr>is_intercepted := True\<rparr>]
               in (case intercept_loop rate alice_bases (Suc i) ps h2 src3 of
                     Inl e \<Rightarrow> Inl e
                   | Inr (modified, eve_bases, ms, h', src') \<Rightarrow>
                       Inr (new_photon # modified, Some eve_basis # eve_bases, m # ms, h', src'))))
      else
        (case intercept_loop rate alice_bases (Suc i) ps h src1 of
           Inl e \<Rightarrow> Inl e
         | Inr (modified, eve_bases, ms, h', src') \<Rightarrow>
             Inr (photon # modified, None # eve_bases, ms, h', src')))"

definition intercept_and_resend ::
  "EveAttack \<Rightarrow> addr list \<Rightarrow> BasisType list \<Rightarrow> heap \<Rightarrow> rng
     \<Rightarrow> error + ((addr list \<times> BasisType option list) \<times> EveAttack \<times> heap \<times> rng)" where
  "intercept_and_resend eve photons alice_bases h src =
     (case intercept_loop (interception_rate eve) alice_bases 0 photons h src of
        Inl e \<Rightarrow> Inl e
      | Inr (modified_photons, eve_bases, ms, h', src') \<Rightarrow>
          Inr ((modified_photons, eve_bases),
               eve\<lparr>intercepted_count := length ms, measurements := ms\<rparr>, h', src'))"

record eve_stats_rec =
  es_active :: bool
  es_interception_rate :: real
  es_photons_intercepted :: nat
  es_basis_matches :: nat
  es_measurement_errors :: nat
  es_measurements :: "measurement list"

definition get_attack_stats :: "EveAttack \<Rightarrow> eve_stats_rec" where
  "get_attack_stats eve =
     \<lparr>es_active = (0 < interception_rate eve),
      es_interception_rate = interception_rate eve,
      es_photons_intercepted = intercepted_count eve,
      es_basis_matches = length (filter m_bases_matched (measurements eve)),
      es_measurement_errors =
        length (filter (\<lambda>m. m_measured_bit m \<noteq> m_original_bit m) (measurements eve)),
      es_measurements = take 10 (measurements eve)\<rparr>"

section \<open>Atmosphere (atmosphere.py)\<close>

record AtmosphericChannel =
  distance_km :: real
  base_loss_rate :: real
  scattering_coefficient :: real
  turbulence_factor :: real

definition AtmosphericChannel_init :: "real \<Rightarrow> AtmosphericChannel" where
  "AtmosphericChannel_init d =
     \<lparr>distance_km = d, base_loss_rate = 0.15, scattering_coefficient = 0.0001,
      turbulence_factor = 0.05\<rparr>"

definition calculate_total_loss :: "AtmosphericChannel \<Rightarrow> rng \<Rightarrow> real \<times> rng" where
  "calculate_total_loss ch src =
     (let distance_loss = 1 - exp (- scattering_coefficient ch * distance_km ch);
          absorption = base_loss_rate ch;
          (turbulence, src1) = random_uniform 0 (turbulence_factor ch) src;
          total_loss = min 0.95 (distance_loss + absorption + turbulence)
      in (total_loss, src1))"

fun transmit_loop ::
  "AtmosphericChannel \<Rightarrow> real \<Rightarrow> addr list \<Rightarrow> heap \<Rightarrow> rng \<Rightarrow> addr list \<times> heap \<times> rng" where
  "transmit_loop ch loss_probability [] h src = ([], h, src)"
| "transmit_loop ch loss_probability (photon # ps) h src =
     (let (u, src1) = random_random src in
      if loss_probability < u then
        (let h1 = h[photon := (h ! photon)\<lparr>is_transmitted := True\<rparr>];
             atmospheric_error_rate = 0.01 + (distance_km ch / 2000) * 0.02;
             (v, src2) = random_random src1;
             h2 = (if v < atmospheric_error_rate
                   then h1[photon := (h1 ! photon)\<lparr>pbit := 1 - pbit (h1 ! photon)\<rparr>]
                   else h1);
             (transmitted, h', src') = transmit_loop ch loss_probability ps h2 src2
         in (photon # transmitted, h', src'))
      else
        transmit_loop ch loss_probability ps
          (h[photon := (h ! photon)\<lparr>is_transmitted := False\<rparr>]) src1)"

definition transmit_photons ::
  "AtmosphericChannel \<Rightarrow> addr list \<Rightarrow> heap \<Rightarrow> rng \<Rightarrow> addr list \<times> heap \<times> rng" where
  "transmit_photons ch photons h src =
     (let (loss_probability, src1) = calculate_total_loss ch src
      in transmit_loop ch loss_probability photons h src1)"

section \<open>Hex rendering (bb84.py)\<close>

definition hex_digit :: "nat \<Rightarrow> char" where
  "hex_digit d = ''0123456789abcdef'' ! d"

function format_x_nat :: "nat \<Rightarrow> string" where
  "format_x_nat v = (if v < 16 then [hex_digit v]
                     else format_x_nat (v div 16) @ [hex_digit (v mod 16)])"
  by pat_completeness auto
termination
  by (relation "measure id") auto

declare format_x_nat.simps [simp del]

definition format_x :: "int \<Rightarrow> string" where
  "format_x v = (if v < 0 then CHR ''-'' # format_x_nat (nat (- v)) else format_x_nat (nat v))"

fun nibble_value :: "nat \<Rightarrow> int list \<Rightarrow> int" where
  "nibble_value j [] = 0"
| "nibble_value j (b # bs) = b * 2 ^ (3 - j) + nibble_value (Suc j) bs"

function hex_loop :: "int list \<Rightarrow> string" where
  "hex_loop padded =
     (if padded = [] then []
      else format_x (nibble_value 0 (take 4 padded)) @ hex_loop (drop 4 padded))"
  by pat_completeness auto
termination
  by (relation "measure length") auto

declare hex_loop.simps [simp del]

definition bits_to_hex :: "int list \<Rightarrow> string" where
  "bits_to_hex bits =
     (if bits = [] then []
      else (let padded = (if length bits mod 4 \<noteq> 0
                          then bits @ replicate (4 - length bits mod 4) 0
                          else bits)
            in hex_loop padded))"

text \<open>Decoding a hex string, most significant bit of each digit first.\<close>

definition hex_value :: "char \<Rightarrow> nat" where
  "hex_value c = length (takeWhile (\<lambda>d. d \<noteq> c) ''0123456789abcdef'')"

definition digit_bits :: "nat \<Rightarrow> int list" where
  "digit_bits v = [int (v div 8 mod 2), int (v div 4 mod 2), int (v div 2 mod 2), int (v mod 2)]"

definition hex_to_bits :: "string \<Rightarrow> int list" where
  "hex_to_bits s = concat (map (\<lambda>c. digit_bits (hex_value c)) s)"

text \<open>The characters of a lower-case hex rendering, and a bit list right-padded with zeros
  to a multiple of four.\<close>

definition hex_chars :: "char set" where
  "hex_chars = set ''0123456789abcdef''"

definition pad_to_nibbles :: "int list \<Rightarrow> int list" where
  "pad_to_nibbles bits = bits @ replicate ((4 - length bits mod 4) mod 4) 0"


section \<open>The protocol driver (bb84.py)\<close>

text \<open>
  The error analysis and the trace carry the fields the properties below speak about; the
  percentages rounded for display and the channel statistics are left out.
\<close>

record error_analysis_rec =
  ea_errors_detected :: nat
  ea_bits_tested :: nat
  ea_tested_indices :: "nat list"
  ea_matching_bases_count :: nat
  ea_security_level :: string
  ea_assessment :: string
  ea_eve_active :: bool
  ea_safe_to_use_key :: bool

record BB84Protocol =
  num_bits :: nat
  eve_active :: bool
  eve_attack_type :: string
  weather :: string
  time_of_day :: string
  telescope_aperture_cm :: real
  atmosphere :: AtmosphericChannel
  eve :: "EveAttack option"
  alice_bits :: "int list"
  alice_bases :: "BasisType list"
  alice_photons :: "addr list"
  bob_bases :: "BasisType list"
  bob_bits :: "int option list"
  bob_received_photons :: "addr list"
  matching_indices :: "nat list"
  sifted_key :: "int list"
  final_key :: "int list"
  qber :: real
  error_analysis :: "error_analysis_rec option"
  eve_stats :: "eve_stats_rec option"
  weather_stats :: "weather_stats_rec option"
  store :: heap

definition BB84Protocol_init ::
  "nat \<Rightarrow> bool \<Rightarrow> real \<Rightarrow> string \<Rightarrow> real \<Rightarrow> string \<Rightarrow> string \<Rightarrow> real \<Rightarrow> BB84Protocol" where
  "BB84Protocol_init n active rate attack_type d w tod aperture =
     \<lparr>num_bits = n, eve_active = active, eve_attack_type = attack_type, weather = w,
      time_of_day = tod, telescope_aperture_cm = aperture,
      atmosphere = AtmosphericChannel_init d,
      eve = (if active then Some (EveAttack_init rate) else None),
      alice_bits = [], alice_bases = [], alice_photons = [],
      bob_bases = [], bob_bits = [], bob_received_photons = [],
      matching_indices = [], sifted_key = [], final_key = [],
      qber = 0, error_analysis = None, eve_stats = None, weather_stats = None,
      store = []\<rparr>"

fun random_bits :: "nat \<Rightarrow> rng \<Rightarrow> int list \<times> rng" where
  "random_bits 0 src = ([], src)"
| "random_bits (Suc n) src =
     (let (b, src1) = random_randint01 src;
          (bs, src2) = random_bits n src1
      in (b # bs, src2))"

definition alice_prepare :: "BB84Protocol \<Rightarrow> rng \<Rightarrow> BB84Protocol \<times> rng" where
  "alice_prepare self src =
     (let (bits, src1) = random_bits (num_bits self) src;
          (bases, src2) = generate_random_bases (num_bits self) src1;
          (photons, h) = alloc_photons (zip bits bases) (store self)
      in (self\<lparr>alice_bits := bits, alice_bases := bases, alice_photons := photons, store := h\<rparr>,
          src2))"

definition eve_intercept :: "BB84Protocol \<Rightarrow> rng \<Rightarrow> error + (BB84Protocol \<times> rng)" where
  "eve_intercept self src =
     (case eve self of
        None \<Rightarrow> Inr (self, src)
      | Some e \<Rightarrow>
          (case intercept_and_resend e (alice_photons self) (alice_bases self) (store self) src of
             Inl err \<Rightarrow> Inl err
           | Inr ((modified, eve_bases), e', h, src') \<Rightarrow>
               Inr (self\<lparr>alice_photons := modified, eve := Some e',
                         eve_stats := Some (get_attack_stats e'), store := h\<rparr>,
                    src')))"

definition atmospheric_transmission :: "BB84Protocol \<Rightarrow> rng \<Rightarrow> BB84Protocol \<times> rng" where
  "atmospheric_transmission self src =
     (let (received, h, src') =
            transmit_photons (atmosphere self) (alice_photons self) (store self) src
      in (self\<lparr>bob_received_photons := received, store := h\<rparr>, src'))"

fun mark_lost :: "(addr \<times> int option) list \<Rightarrow> heap \<Rightarrow> heap" where
  "mark_lost [] h = h"
| "mark_lost ((photon, affected_bit) # rest) h =
     mark_lost rest
       (if affected_bit = None then h[photon := (h ! photon)\<lparr>is_transmitted := False\<rparr>] else h)"

definition apply_weather_effects_stage ::
  "BB84Protocol \<Rightarrow> rng \<Rightarrow> error + (BB84Protocol \<times> rng)" where
  "apply_weather_effects_stage self src =
     (let received_bits = map (\<lambda>photon. Some (pbit (store self ! photon)))
                              (bob_received_photons self)
      in (case apply_weather_effects received_bits (weather self) src of
            Inl err \<Rightarrow> Inl err
          | Inr (affected_bits, stats, src') \<Rightarrow>
              Inr (self\<lparr>weather_stats := Some stats,
                        store := mark_lost (zip (bob_received_photons self) affected_bits)
                                           (store self)\<rparr>,
                   src')))"

fun received_indices_of :: "heap \<Rightarrow> nat \<Rightarrow> addr list \<Rightarrow> (addr \<Rightarrow> nat option) \<Rightarrow> (addr \<Rightarrow> nat option)" where
  "received_indices_of h i [] d = d"
| "received_indices_of h i (photon # ps) d =
     received_indices_of h (Suc i) ps
       (if is_transmitted (h ! photon) then d(photon \<mapsto> i) else d)"

fun measure_loop ::
  "(addr \<Rightarrow> nat option) \<Rightarrow> heap \<Rightarrow> BasisType list \<Rightarrow> addr list \<Rightarrow> int option list \<Rightarrow> rng
     \<Rightarrow> error + (int option list \<times> rng)" where
  "measure_loop received_indices h bases [] bits src = Inr (bits, src)"
| "measure_loop received_indices h bases (photon # ps) bits src =
     (case received_indices photon of
        None \<Rightarrow> measure_loop received_indices h bases ps bits src
      | Some original_idx \<Rightarrow>
          (if length bases \<le> original_idx \<or> length bits \<le> original_idx then Inl IndexError
           else
             (let (r, src1) = measure_photon (pbit (h ! photon)) (preparation_basis (h ! photon))
                                              (bases ! original_idx) src
              in measure_loop received_indices h bases ps
                   (bits[original_idx := Some (fst r)]) src1)))"

definition bob_measure :: "BB84Protocol \<Rightarrow> rng \<Rightarrow> error + (BB84Protocol \<times> rng)" where
  "bob_measure self src =
     (let (bases, src1) = generate_random_bases (num_bits self) src;
          bits0 = replicate (num_bits self) None;
          received_indices = received_indices_of (store self) 0 (alice_photons self) Map.empty
      in (case measure_loop received_indices (store self) bases (bob_received_photons self)
                            bits0 src1 of
            Inl err \<Rightarrow> Inl err
          | Inr (bits, src') \<Rightarrow> Inr (self\<lparr>bob_bases := bases, bob_bits := bits\<rparr>, src')))"

fun reconciliation_loop ::
  "nat list \<Rightarrow> int option list \<Rightarrow> BasisType list \<Rightarrow> BasisType list \<Rightarrow> (nat \<times> int) list" where
  "reconciliation_loop [] bits abases bbases = []"
| "reconciliation_loop (i # rest) bits abases bbases =
     (case bits ! i of
        None \<Rightarrow> reconciliation_loop rest bits abases bbases
      | Some b \<Rightarrow>
          (if abases ! i = bbases ! i
           then (i, b) # reconciliation_loop rest bits abases bbases
           else reconciliation_loop rest bits abases bbases))"

definition basis_reconciliation :: "BB84Protocol \<Rightarrow> BB84Protocol" where
  "basis_reconciliation self =
     (let kept = reconciliation_loop [0..<num_bits self] (bob_bits self)
                                     (alice_bases self) (bob_bases self)
      in self\<lparr>matching_indices := map fst kept, sifted_key := map snd kept\<rparr>)"

definition error_testing :: "BB84Protocol \<Rightarrow> rng \<Rightarrow> error + (BB84Protocol \<times> rng)" where
  "error_testing self src =
     (let alice_sifted = map (\<lambda>i. alice_bits self ! i) (matching_indices self);
          bob_sifted = map (\<lambda>i. bob_bits self ! i) (matching_indices self)
      in (case calculate_qber alice_sifted bob_sifted [0..<length (matching_indices self)]
                              None src of
            Inl err \<Rightarrow> Inl err
          | Inr ((q, tested_indices_in_sifted, errors, total_tested), src') \<Rightarrow>
              (let tested_indices_original =
                     map (\<lambda>i. matching_indices self ! i) tested_indices_in_sifted;
                   (level, text) =
                     (if q < 5 then (''SECURE'', ''Normal atmospheric noise levels'')
                      else if q < 11
                        then (''ACCEPTABLE'',
                              ''Slightly elevated error rate, within acceptable bounds'')
                      else if q < 15
                        then (''SUSPICIOUS'',
                              ''High error rate detected - possible eavesdropping'')
                      else (''ABORT'',
                            ''CRITICAL: Error rate too high - eavesdropper detected!''))
               in Inr (self\<lparr>error_analysis :=
                               Some \<lparr>ea_errors_detected = errors,
                                     ea_bits_tested = total_tested,
                                     ea_tested_indices = tested_indices_original,
                                     ea_matching_bases_count = length (matching_indices self),
                                     ea_security_level = level,
                                     ea_assessment = text,
                                     ea_eve_active = eve_active self,
                                     ea_safe_to_use_key = (q < 11)\<rparr>,
                             qber := q\<rparr>,
                       src'))))"

definition privacy_amplification :: "BB84Protocol \<Rightarrow> BB84Protocol" where
  "privacy_amplification self =
     (let tested_original_set =
            (case error_analysis self of None \<Rightarrow> {} | Some ea \<Rightarrow> set (ea_tested_indices ea));
          untested = filter (\<lambda>i. matching_indices self ! i \<notin> tested_original_set)
                            [0..<length (sifted_key self)];
          alice_untested = map (\<lambda>i. alice_bits self ! (matching_indices self ! i)) untested;
          corrected_key = alice_untested
      in self\<lparr>final_key := apply_privacy_amplification corrected_key (qber self)\<rparr>)"

record trace =
  t_alice_bits :: "int list"
  t_alice_bases :: "BasisType list"
  t_bob_bases :: "BasisType list"
  t_bob_bits :: "int option list"
  t_matching_indices :: "nat list"
  t_matches :: "bool list"
  t_sifted_key :: "int list"
  t_final_key :: "int list"
  t_final_key_length :: nat
  t_final_key_hex :: string
  t_total_bits_sent :: nat
  t_photons_received :: nat
  t_qber :: real
  t_error_analysis :: "error_analysis_rec option"
  t_eve_active :: bool
  t_eve_stats :: "eve_stats_rec option"
  t_secure :: bool
  t_security_level :: string

definition generate_trace :: "BB84Protocol \<Rightarrow> error + trace" where
  "generate_trace self =
     (if num_bits self = 0 then Inl ZeroDivisionError
      else Inr
        \<lparr>t_alice_bits = alice_bits self,
         t_alice_bases = alice_bases self,
         t_bob_bases = bob_bases self,
         t_bob_bits = bob_bits self,
         t_matching_indices = matching_indices self,
         t_matches = map (\<lambda>i. alice_bases self ! i = bob_bases self ! i) [0..<num_bits self],
         t_sifted_key = sifted_key self,
         t_final_key = final_key self,
         t_final_key_length = length (final_key self),
         t_final_key_hex = bits_to_hex (final_key self),
         t_total_bits_sent = num_bits self,
         t_photons_received = length (bob_received_photons self),
         t_qber = qber self,
         t_error_analysis = error_analysis self,
         t_eve_active = eve_active self,
         t_eve_stats = (if eve_active self then eve_stats self else None),
         t_secure = (case error_analysis self of None \<Rightarrow> False | Some ea \<Rightarrow> ea_safe_to_use_key ea),
         t_security_level =
           (case error_analysis self of None \<Rightarrow> ''UNKNOWN'' | Some ea \<Rightarrow> ea_security_level ea)\<rparr>)"

text \<open>
  \<open>run_protocol\<close> in two halves: steps 1 to 3b, which move the photons through Eve, the
  atmosphere and the weather, and steps 4 to 7 with the trace.
\<close>

definition transport_stages :: "BB84Protocol \<Rightarrow> rng \<Rightarrow> error + (BB84Protocol \<times> rng)" where
  "transport_stages self src =
     (let (s1, src1) = alice_prepare self src
      in (case (if eve_active s1 \<and> eve s1 \<noteq> None then eve_intercept s1 src1
                else Inr (s1, src1)) of
            Inl err \<Rightarrow> Inl err
          | Inr (s2, src2) \<Rightarrow>
              (let (s3, src3) = atmospheric_transmission s2 src2
               in apply_weather_effects_stage s3 src3)))"

definition run_protocol :: "BB84Protocol \<Rightarrow> rng \<Rightarrow> error + trace" where
  "run_protocol self src =
     (case transport_stages self src of
        Inl err \<Rightarrow> Inl err
      | Inr (s4, src4) \<Rightarrow>
          (case bob_measure s4 src4 of
             Inl err \<Rightarrow> Inl err
           | Inr (s5, src5) \<Rightarrow>
               (case error_testing (basis_reconciliation s5) src5 of
                  Inl err \<Rightarrow> Inl err
                | Inr (s7, src7) \<Rightarrow> generate_trace (privacy_amplification s7))))"


section \<open>Random streams\<close>

lemma rng_tail_drop: "rng_tail src = rng_drop 1 src"
  by (simp add: rng_tail_def rng_drop_def)

lemma rng_drop_0 [simp]: "rng_drop 0 src = src"
  by (simp add: rng_drop_def)

lemma rng_drop_drop [simp]: "rng_drop m (rng_drop n src) = rng_drop (n + m) src"
  by (simp add: rng_drop_def add.assoc add.commute add.left_commute)


lemma rng_tail_constant [simp]: "rng_tail (constant_rng c) = constant_rng c"
  by (simp add: rng_tail_def constant_rng_def)

lemma rng_drop_constant [simp]: "rng_drop n (constant_rng c) = constant_rng c"
  by (simp add: rng_drop_def constant_rng_def)

lemma constant_rng_apply [simp]: "constant_rng c k = c"
  by (simp add: constant_rng_def)

lemma random_random_unit: "0 \<le> fst (random_random src) \<and> fst (random_random src) < 1"
  by (simp add: random_random_def)

section \<open>Measurement rule\<close>

lemma flip_draws:
  "{w. w < 9007199254740992 \<and> real w / 9007199254740992 < (0.008::real)} = {..<72057594037928}"
  by (auto simp: field_simps)

lemma even_draws:
  "card {w::nat. w < 9007199254740992 \<and> w mod 2 = 0} = 4503599627370496"
proof -
  have "{w::nat. w < 9007199254740992 \<and> w mod 2 = 0} = (\<lambda>k. 2 * k) ` {..<4503599627370496}"
    by (auto simp: image_iff elim!: evenE) 
  moreover have "inj_on (\<lambda>k::nat. 2 * k) {..<4503599627370496}"
    by (simp add: inj_on_def)
  ultimately show ?thesis by (simp add: card_image)
qed

lemma odd_draws:
  "card {w::nat. w < 9007199254740992 \<and> w mod 2 = 1} = 4503599627370496"
proof -
  have "{w::nat. w < 9007199254740992 \<and> w mod 2 = 1} = (\<lambda>k. 2 * k + 1) ` {..<4503599627370496}"
  proof (intro set_eqI iffI)
    fix x :: nat
    assume "x \<in> {w. w < 9007199254740992 \<and> w mod 2 = 1}"
    then have "x = 2 * (x div 2) + 1" "x div 2 < 4503599627370496" by auto presburger
    then show "x \<in> (\<lambda>k. 2 * k + 1) ` {..<4503599627370496}" by blast
  next
    fix x :: nat
    assume "x \<in> (\<lambda>k. 2 * k + 1) ` {..<4503599627370496}"
    then show "x \<in> {w. w < 9007199254740992 \<and> w mod 2 = 1}" by auto
  qed
  moreover have "inj_on (\<lambda>k::nat. 2 * k + 1) {..<4503599627370496}"
    by (simp add: inj_on_def)
  ultimately show ?thesis by (simp add: card_image)
qed

lemma random_choice_pair:
  "random_choice [x, y] src = (if src 0 mod 2 = 0 then x else y, rng_tail src)"
proof -
  have l: "length [x, y] = 2" by simp
  have "src 0 mod 2 = 0 \<or> src 0 mod 2 = 1" by presburger
  then show ?thesis unfolding random_choice_def l by auto
qed

lemma random_choice_bit: "random_choice [0::int, 1] src = (int (src 0 mod 2), rng_tail src)"
proof -
  have "src 0 mod 2 = 0 \<or> src 0 mod 2 = 1" by presburger
  then show ?thesis by (auto simp: random_choice_pair)
qed

text \<open>
  C8. For every bit and every pair of bases: when the preparation basis equals the
  measurement basis, \<open>measure_photon\<close> returns the flipped bit \<open>1 - bit\<close> with \<open>True\<close>
  exactly on the draws below the detector error 0.008 and the bit itself with \<open>True\<close> on
  all others; of the \<open>2^53\<close> equally likely draws, 72057594037928 flip, which is 0.008 up
  to the resolution \<open>2^-53\<close> of the generator. When the bases differ it returns the
  uniformly chosen bit with \<open>False\<close>: half of the draws give 0 and half give 1.
\<close>

theorem measure_photon_rule:
  "(pb = mb \<longrightarrow>
      measure_photon b pb mb src =
        ((if fst (random_random src) < 0.008 then 1 - b else b, True), rng_tail src) \<and>
      card {w. w < 9007199254740992 \<and> fst (fst (measure_photon b pb mb (constant_rng w))) = 1 - b}
        = 72057594037928) \<and>
   (pb \<noteq> mb \<longrightarrow>
      measure_photon b pb mb src = ((int (src 0 mod 2), False), rng_tail src) \<and>
      card {w. w < 9007199254740992 \<and> fst (fst (measure_photon b pb mb (constant_rng w))) = 0}
        = 4503599627370496 \<and>
      card {w. w < 9007199254740992 \<and> fst (fst (measure_photon b pb mb (constant_rng w))) = 1}
        = 4503599627370496)"
proof (intro conjI impI)
  assume e: "pb = mb"
  show "measure_photon b pb mb src =
        ((if fst (random_random src) < 0.008 then 1 - b else b, True), rng_tail src)"
    using e by (simp add: measure_photon_def random_random_def)
  have "1 - b \<noteq> b" by presburger
  then have "{w. w < 9007199254740992 \<and> fst (fst (measure_photon b pb mb (constant_rng w))) = 1 - b}
      = {w. w < 9007199254740992 \<and> real w / 9007199254740992 < (0.008::real)}"
    using e by (auto simp: measure_photon_def random_random_def)
  then show "card {w. w < 9007199254740992 \<and> fst (fst (measure_photon b pb mb (constant_rng w))) = 1 - b}
        = 72057594037928"
    using flip_draws by simp
next
  assume n: "pb \<noteq> mb"
  show "measure_photon b pb mb src = ((int (src 0 mod 2), False), rng_tail src)"
    using n by (simp add: measure_photon_def random_choice_bit)
  have "\<And>w. fst (fst (measure_photon b pb mb (constant_rng w))) = int (w mod 2)"
    using n by (simp add: measure_photon_def random_choice_bit)
  then show "card {w. w < 9007199254740992 \<and> fst (fst (measure_photon b pb mb (constant_rng w))) = 0}
        = 4503599627370496"
     "card {w. w < 9007199254740992 \<and> fst (fst (measure_photon b pb mb (constant_rng w))) = 1}
        = 4503599627370496"
    using even_draws odd_draws by simp_all
qed

theorem measure_photon_rule_witness:
  "measure_photon 1 DIAGONAL DIAGONAL (constant_rng 0) = ((0, True), constant_rng 0) \<and>
   measure_photon 1 RECTILINEAR DIAGONAL (constant_rng 0) = ((0, False), constant_rng 0)"
  using measure_photon_rule [of DIAGONAL DIAGONAL 1 "constant_rng 0"]
        measure_photon_rule [of RECTILINEAR DIAGONAL 1 "constant_rng 0"]
  by (simp add: random_random_def)


section \<open>Privacy amplification\<close>

lemma bit_length_eq: "2 ^ k \<le> n \<Longrightarrow> n < 2 ^ Suc k \<Longrightarrow> bit_length n = Suc k"
proof (induction k arbitrary: n)
  case 0
  then have "n = 1" by simp
  then show ?case by (simp add: bit_length.simps)
next
  case (Suc k)
  then have "2 ^ k \<le> n div 2" "n div 2 < 2 ^ Suc k" by auto
  then have "bit_length (n div 2) = Suc k" by (rule Suc.IH)
  moreover have "n \<noteq> 0" using Suc.prems by auto
  ultimately show ?case by (subst bit_length.simps) simp
qed

lemma bit_length_0: "bit_length 0 = 0"
  by (simp add: bit_length.simps)

lemma float_product_0: "int_of_float_product 0 m e = 0"
  by (simp add: int_of_float_product_def round_to_53_bits_def bit_length_0)

text \<open>\<open>int(10 * 0.7)\<close> is 7, as the exact floor; \<open>int(90 * 0.7)\<close> is 62, one below it.\<close>

lemma float_product_10: "int_of_float_product 10 3152519739159347 52 = 7"
proof -
  have a: "bit_length 10 = 4" using bit_length_eq[of 3 10] by simp
  have b: "bit_length 31525197391593470 = 55" using bit_length_eq[of 54 31525197391593470] by simp
  show ?thesis by (simp add: int_of_float_product_def round_to_53_bits_def a b Let_def)
qed

lemma float_product_90: "int_of_float_product 90 3152519739159347 52 = 62"
proof -
  have a: "bit_length 90 = 7" using bit_length_eq[of 6 90] by simp
  have b: "bit_length 283726776524341230 = 58" using bit_length_eq[of 57 283726776524341230] by simp
  show ?thesis by (simp add: int_of_float_product_def round_to_53_bits_def a b Let_def)
qed

lemma privacy_amplification_length_90:
  "length (apply_privacy_amplification (replicate 90 (0::int)) 7) = 62 \<and>
   nat \<lfloor>real (length (replicate 90 (0::int))) * 0.7\<rfloor> = 63"
  by (simp add: apply_privacy_amplification_def shrink_factor_def float_product_90)

text \<open>
  The general case. \<open>bit_length\<close> brackets its argument between two powers of two; a
  number below \<open>2^53\<close> is a double; and rounding to 53 bits moves a number by at most half
  a unit in the last place, so a product that stays clear of the next multiple of \<open>2^e\<close>
  truncates to the exact quotient.
\<close>

lemma bit_length_less: "n < 2 ^ bit_length n"
proof (induction n rule: bit_length.induct)
  case (1 n)
  show ?case
  proof (cases "n = 0")
    case True
    then show ?thesis by simp
  next
    case False
    then have ih: "n div 2 < 2 ^ bit_length (n div 2)" by (rule 1)
    have b: "bit_length n = Suc (bit_length (n div 2))"
      using False by (subst bit_length.simps) simp
    have "n < 2 * (n div 2) + 2" by linarith
    also have "\<dots> \<le> 2 * 2 ^ bit_length (n div 2)" using ih by linarith
    finally show ?thesis by (simp add: b)
  qed
qed

lemma bit_length_ge: "n \<noteq> 0 \<Longrightarrow> 2 ^ (bit_length n - 1) \<le> n"
proof (induction n rule: bit_length.induct)
  case (1 n)
  have b: "bit_length n = Suc (bit_length (n div 2))"
    using "1.prems" by (subst bit_length.simps) simp
  show ?case
  proof (cases "n div 2 = 0")
    case True
    then show ?thesis using "1.prems" by (simp add: b bit_length_0)
  next
    case False
    have ih: "2 ^ (bit_length (n div 2) - 1) \<le> n div 2"
      using "1.prems" False by (rule 1)
    have "bit_length (n div 2) \<noteq> 0"
      using False by (subst bit_length.simps) simp
    then have "(2::nat) ^ bit_length (n div 2) = 2 * 2 ^ (bit_length (n div 2) - 1)"
      by (cases "bit_length (n div 2)") simp_all
    also have "\<dots> \<le> 2 * (n div 2)" using ih by simp
    also have "\<dots> \<le> n" by simp
    finally show ?thesis by (simp add: b)
  qed
qed

lemma bit_length_le: "n < 2 ^ k \<Longrightarrow> bit_length n \<le> k"
proof (cases "n = 0")
  case True
  then show ?thesis by (simp add: bit_length_0)
next
  case False
  assume "n < 2 ^ k"
  with bit_length_ge[OF False] have "(2::nat) ^ (bit_length n - 1) < 2 ^ k" by linarith
  then have "bit_length n - 1 < k" by simp
  then show ?thesis by linarith
qed

lemma round_small: "N < 2 ^ 53 \<Longrightarrow> round_to_53_bits N = N"
  using bit_length_le[of N 53] by (simp add: round_to_53_bits_def)

lemma round_window:
  assumes A: "N < 2 ^ (e + 53)" and B: "a * 2 ^ e \<le> N"
    and C: "N \<le> h * 2 ^ 53" and D: "N + h < (a + 1) * 2 ^ e"
  shows "round_to_53_bits N div 2 ^ e = a"
proof (cases "bit_length N \<le> 53")
  case True
  then have "round_to_53_bits N = N" by (simp add: round_to_53_bits_def)
  moreover have "N div 2 ^ e = a"
  proof (rule div_nat_eqI)
    show "2 ^ e * a \<le> N" using B by (simp add: mult.commute)
    show "N < 2 ^ e * Suc a" using D by (simp add: mult.commute)
  qed
  ultimately show ?thesis by simp
next
  case False
  define s where "s = bit_length N - 53"
  define q where "q = N div 2 ^ s"
  define r where "r = N mod 2 ^ s"
  define half :: nat where "half = 2 ^ (s - 1)"
  define R where "R = round_to_53_bits N"
  have s1: "1 \<le> s" using False by (simp add: s_def)
  have L: "bit_length N = s + 53" using False by (simp add: s_def)
  have "bit_length N \<le> e + 53" using A by (rule bit_length_le)
  then have se: "s \<le> e" using L by simp
  have two: "(2::nat) ^ s = 2 * half"
    using s1 by (cases s) (simp_all add: half_def)
  have N: "N = q * 2 ^ s + r" by (simp only: q_def r_def div_mult_mod_eq)
  have r: "r < 2 * half" unfolding two[symmetric] by (simp add: r_def)
  have N0: "N \<noteq> 0"
  proof
    assume "N = 0"
    then have "bit_length N = 0" by (simp add: bit_length_0)
    then show False using False by simp
  qed
  have "half * 2 ^ 53 = 2 ^ (bit_length N - 1)"
    unfolding half_def L power_add[symmetric] using s1 by simp
  also have "\<dots> \<le> N" using N0 by (rule bit_length_ge)
  finally have "half * 2 ^ 53 \<le> h * 2 ^ 53" using C by linarith
  then have hh: "half \<le> h" by simp
  have R: "R = (if half < r \<or> (r = half \<and> odd q) then q + 1 else q) * 2 ^ s"
    using False
    by (simp add: R_def round_to_53_bits_def Let_def s_def q_def r_def half_def)
  have lower: "q * 2 ^ s \<le> R" by (simp add: R)
  have upper: "R \<le> N + half"
  proof (cases "half < r \<or> (r = half \<and> odd q)")
    case True
    then have "R = q * 2 ^ s + 2 * half" by (simp add: R two)
    moreover have "half \<le> r" using True by auto
    ultimately show ?thesis using N by linarith
  next
    case False
    then have "R = q * 2 ^ s" by (simp add: R)
    then show ?thesis using N by linarith
  qed
  have e: "(2::nat) ^ e = 2 ^ (e - s) * 2 ^ s"
    using se by (simp add: power_add[symmetric])
  have "a * 2 ^ (e - s) * 2 ^ s \<le> N" using B by (simp add: e mult.assoc)
  then have "a * 2 ^ (e - s) \<le> q"
    unfolding q_def by (simp add: less_eq_div_iff_mult_less_eq)
  then have x: "a * 2 ^ (e - s) * 2 ^ s \<le> q * 2 ^ s" by simp
  have ae: "a * 2 ^ e = a * 2 ^ (e - s) * 2 ^ s" by (subst e) (simp add: mult.assoc)
  have lo: "a * 2 ^ e \<le> R" unfolding ae using x lower by linarith
  have hi: "R < (a + 1) * 2 ^ e" using upper hh D by linarith
  have "R div 2 ^ e = a"
  proof (rule div_nat_eqI)
    show "2 ^ e * a \<le> R" using lo by (simp add: mult.commute)
    show "R < 2 ^ e * Suc a" using hi by (simp add: mult.commute)
  qed
  then show ?thesis by (simp add: R_def)
qed


lemma round_below_multiple:
  assumes L: "bit_length N = s + 53" and s1: "1 \<le> s" and N: "N + d = c * 2 ^ s"
    and d0: "0 < d" and d1: "d < 2 ^ s" and c: "even c"
  shows "round_to_53_bits N = (if 2 * d \<le> 2 ^ s then c * 2 ^ s else (c - 1) * 2 ^ s)"
proof -
  define half :: nat where "half = 2 ^ (s - 1)"
  have two: "(2::nat) ^ s = 2 * half"
    using s1 by (cases s) (simp_all add: half_def)
  have c1: "1 \<le> c"
  proof (rule ccontr)
    assume "\<not> 1 \<le> c"
    then have "c = 0" by simp
    with N d0 show False by simp
  qed
  have "c * 2 ^ s = (c - 1) * 2 ^ s + 2 ^ s"
    using c1 by (cases c) simp_all
  then have N2: "N = (c - 1) * 2 ^ s + (2 ^ s - d)" using N d1 by linarith
  have rd: "2 ^ s - d < (2::nat) ^ s" using d0 d1 by simp
  have q: "N div 2 ^ s = c - 1"
    by (subst N2) (simp add: rd)
  have r: "N mod 2 ^ s = 2 ^ s - d"
    by (subst N2) (simp add: rd)
  have o: "odd (c - 1)" using c c1 by simp
  define b where "b \<longleftrightarrow> half < 2 ^ s - d \<or> (2 ^ s - d = half \<and> odd (c - 1))"
  have bc: "b = (2 * d \<le> 2 ^ s)"
    using d1 o unfolding b_def two by auto
  have "round_to_53_bits N = (if b then c - 1 + 1 else c - 1) * 2 ^ s"
    unfolding b_def using s1 by (simp add: round_to_53_bits_def L Let_def q r half_def)
  then show ?thesis
    unfolding bc using c1 by (cases "2 * d \<le> 2 ^ s") simp_all
qed

lemma float_product_half: "n < 2 ^ 53 \<Longrightarrow> int_of_float_product n 1 1 = n div 2"
  by (simp add: int_of_float_product_def round_small)

lemma float_product_nine_tenths:
  assumes "n < 2 ^ 48"
  shows "int_of_float_product n 8106479329266893 53 = 9 * n div 10"
proof -
  have n: "n < 281474976710656" using assms by simp
  have r1: "round_to_53_bits n = n" by (rule round_small) (use n in simp)
  define a where "a = 9 * n div 10"
  have a1: "10 * a \<le> 9 * n" and a2: "9 * n < 10 * a + 10" by (simp_all add: a_def)
  have "round_to_53_bits (n * 8106479329266893) div 2 ^ 53 = a"
  proof (rule round_window[where h = n])
    show "n * 8106479329266893 < 2 ^ (53 + 53)" using n by simp
    show "a * 2 ^ 53 \<le> n * 8106479329266893" using a1 by simp
    show "n * 8106479329266893 \<le> n * 2 ^ 53" by simp
    show "n * 8106479329266893 + n < (a + 1) * 2 ^ 53" using a2 n by simp
  qed
  then show ?thesis by (simp add: int_of_float_product_def r1 a_def)
qed

lemma float_product_seven_tenths:
  assumes "n < 2 ^ 48" and "n mod 10 \<noteq> 0"
  shows "int_of_float_product n 3152519739159347 52 = 7 * n div 10"
proof -
  have n: "n < 281474976710656" using assms by simp
  have r1: "round_to_53_bits n = n" by (rule round_small) (use n in simp)
  define a where "a = 7 * n div 10"
  have "7 * n mod 10 \<noteq> 0" using assms(2) by presburger
  then have a1: "10 * a + 1 \<le> 7 * n" and a2: "7 * n < 10 * a + 10"
    unfolding a_def by presburger+
  have "round_to_53_bits (n * 3152519739159347) div 2 ^ 52 = a"
  proof (rule round_window[where h = n])
    show "n * 3152519739159347 < 2 ^ (52 + 53)" using n by simp
    show "a * 2 ^ 52 \<le> n * 3152519739159347" using a1 n by simp
    show "n * 3152519739159347 \<le> n * 2 ^ 53" by simp
    show "n * 3152519739159347 + n < (a + 1) * 2 ^ 52" using a2 n by simp
  qed
  then show ?thesis by (simp add: int_of_float_product_def r1 a_def)
qed

lemma float_product_seven_tenths_shortfall:
  assumes j0: "0 < j" and j1: "j < 2 ^ 45"
  shows "int_of_float_product (10 * j) 3152519739159347 52 =
           (if 2 ^ (bit_length (7 * j - 1) - 1) < 4 * j then 7 * j - 1 else 7 * j)"
proof -
  have j: "j < 35184372088832" using j1 by simp
  have r1: "round_to_53_bits (10 * j) = 10 * j" by (rule round_small) (use j in simp)
  define t where "t = bit_length (7 * j - 1)"
  define s where "s = t - 1"
  define P :: nat where "P = 2 ^ s"
  define N where "N = 10 * j * 3152519739159347"
  have nz: "7 * j - 1 \<noteq> 0" using j0 by simp
  have lo: "P \<le> 7 * j - 1" unfolding P_def s_def t_def using nz by (rule bit_length_ge)
  have hi: "7 * j - 1 < 2 ^ t" unfolding t_def by (rule bit_length_less)
  have t2: "2 \<le> t"
  proof (rule ccontr)
    assume "\<not> 2 \<le> t"
    then have "t = 0 \<or> t = 1" by linarith
    then have "(2::nat) ^ t \<le> 2" by auto
    with hi j0 show False by linarith
  qed
  have s1: "1 \<le> s" using t2 by (simp add: s_def)
  have ts: "t = Suc s" using t2 by (simp add: s_def)
  have hiP: "7 * j - 1 < 2 * P" using hi by (simp add: ts P_def)
  have "7 * j - 1 < 2 ^ 48" using j by simp
  then have "t \<le> 48" unfolding t_def by (rule bit_length_le)
  then have s46: "s \<le> 47" by (simp add: s_def)
  have PP: "(2::nat) ^ 52 = 2 ^ (52 - s) * P"
    unfolding P_def using s46 by (simp add: power_add[symmetric])
  have P52: "P * 32 \<le> 2 ^ 52"
  proof -
    have "P * 2 ^ 5 = 2 ^ (s + 5)" by (simp add: P_def power_add)
    also have "\<dots> \<le> (2::nat) ^ 52" using s46 by (intro power_increasing) simp_all
    finally show ?thesis by simp
  qed
  have Nd: "N + 2 * j = 7 * j * 2 ^ 52" by (simp add: N_def)
  have Nd2: "N + 2 * j = (7 * j * 2 ^ (52 - s)) * 2 ^ s"
    unfolding Nd PP P_def by (simp only: mult.assoc)
  have L: "bit_length N = s + 53"
  proof -
    have "2 ^ (s + 52) = P * 2 ^ 52" by (simp add: P_def power_add)
    also have "\<dots> \<le> N" using lo Nd j j0 by simp
    finally have a: "2 ^ (s + 52) \<le> N" .
    have "N < 2 * P * 2 ^ 52" using hiP Nd j0 by simp
    also have "\<dots> = 2 ^ Suc (s + 52)" by (simp add: P_def power_add)
    finally have b: "N < 2 ^ Suc (s + 52)" .
    from a b have "bit_length N = Suc (s + 52)" by (rule bit_length_eq)
    then show ?thesis by simp
  qed
  have d1: "2 * j < 2 ^ s" using hiP j0 by (simp add: P_def[symmetric])
  have ev: "even (7 * j * 2 ^ (52 - s))" using s46 by simp
  have R: "round_to_53_bits N =
      (if 2 * (2 * j) \<le> 2 ^ s then (7 * j * 2 ^ (52 - s)) * 2 ^ s
       else (7 * j * 2 ^ (52 - s) - 1) * 2 ^ s)"
    using L s1 Nd2 _ d1 ev by (rule round_below_multiple) (use j0 in simp)
  have c: "(7 * j * 2 ^ (52 - s)) * 2 ^ s = 7 * j * 2 ^ 52"
    unfolding PP P_def by (simp only: mult.assoc)
  have c1: "(7 * j * 2 ^ (52 - s) - 1) * 2 ^ s = 7 * j * 2 ^ 52 - P"
    unfolding c[symmetric] P_def by (simp add: diff_mult_distrib)
  have P0: "0 < P" by (simp add: P_def)
  have up: "(7 * j * 2 ^ 52) div 2 ^ 52 = 7 * j" by simp
  have down: "(7 * j * 2 ^ 52 - P) div 2 ^ 52 = 7 * j - 1"
  proof (rule div_nat_eqI)
    show "2 ^ 52 * (7 * j - 1) \<le> 7 * j * 2 ^ 52 - P" using P52 j0 by simp
    show "7 * j * 2 ^ 52 - P < 2 ^ 52 * Suc (7 * j - 1)" using P0 j0 by simp
  qed
  have "round_to_53_bits N div 2 ^ 52 = (if P < 4 * j then 7 * j - 1 else 7 * j)"
  proof (cases "P < 4 * j")
    case True
    then have "\<not> 2 * (2 * j) \<le> 2 ^ s" by (simp add: P_def)
    then have "round_to_53_bits N = 7 * j * 2 ^ 52 - P" by (simp only: R c1 if_False)
    then have "round_to_53_bits N div 2 ^ 52 = 7 * j - 1" by (simp only: down)
    then show ?thesis using True by simp
  next
    case False
    then have "2 * (2 * j) \<le> 2 ^ s" by (simp add: P_def)
    then have "round_to_53_bits N = 7 * j * 2 ^ 52" by (simp only: R c if_True)
    then have "round_to_53_bits N div 2 ^ 52 = 7 * j" by (simp only: up)
    then show ?thesis using False by simp
  qed
  then show ?thesis
    by (simp add: int_of_float_product_def r1 N_def P_def s_def t_def)
qed


lemma floor_tenths: "nat \<lfloor>real n * (real c / 10)\<rfloor> = c * n div 10"
proof -
  have "real n * (real c / 10) = real (c * n) / real 10" by simp
  then have "\<lfloor>real n * (real c / 10)\<rfloor> = int (c * n div 10)"
    by (simp only: floor_divide_of_nat_eq)
  then show ?thesis by simp
qed

lemma floor_nine_tenths: "nat \<lfloor>real n * 0.9\<rfloor> = 9 * n div 10"
  using floor_tenths[of n 9] by simp

lemma floor_seven_tenths: "nat \<lfloor>real n * 0.7\<rfloor> = 7 * n div 10"
  using floor_tenths[of n 7] by simp

lemma floor_half: "nat \<lfloor>real n * 0.5\<rfloor> = n div 2"
  using floor_tenths[of n 5] by simp

lemma float_product_seven_tenths_all:
  assumes "0 < n" and "n < 2 ^ 48"
  shows "int_of_float_product n 3152519739159347 52 =
           7 * n div 10 -
             (if n mod 10 = 0 \<and> 2 ^ (bit_length (7 * (n div 10) - 1) - 1) < 4 * (n div 10)
              then 1 else 0)"
proof (cases "n mod 10 = 0")
  case False
  then show ?thesis using assms(2) by (simp add: float_product_seven_tenths)
next
  case True
  define j where "j = n div 10"
  have n: "n = 10 * j" using True by (auto simp: j_def)
  have j0: "0 < j" using assms(1) n by simp
  have "n < 281474976710656" using assms(2) by simp
  then have j1: "j < 2 ^ 45" using n by simp
  have "int_of_float_product (10 * j) 3152519739159347 52 =
           (if 2 ^ (bit_length (7 * j - 1) - 1) < 4 * j then 7 * j - 1 else 7 * j)"
    using j0 j1 by (rule float_product_seven_tenths_shortfall)
  moreover have "7 * (10 * j) div 10 = 7 * j" by simp
  ultimately show ?thesis using True unfolding j_def[symmetric] n by simp
qed

text \<open>
  C4, as stated, fails on the empty key: with a QBER below 15 the computed length is
  \<open>max(1, 0) = 1\<close>, but the slice of an empty key is empty.
\<close>

theorem privacy_amplification_empty_key_counterexample:
  "length (apply_privacy_amplification ([]::int list) 3)
     \<noteq> nat (max 1 \<lfloor>real (length ([]::int list)) * 0.9\<rfloor>)"
  by (simp add: apply_privacy_amplification_def shrink_factor_def)

lemma bit_length_62: "bit_length 62 = 6"
  using bit_length_eq[of 5 62] by simp

text \<open>
  C4, amended. The empty key is returned unchanged (empty) for every QBER. For every
  non-empty key of fewer than \<open>2^48\<close> bits and every QBER \<open>q\<close>:
  \<^item> for \<open>q \<ge> 15\<close> the result is the empty key;
  \<^item> for \<open>q < 5\<close> it is the first \<open>max(1, floor(len * 0.9))\<close> bits;
  \<^item> for \<open>11 \<le> q < 15\<close> it is the first \<open>max(1, floor(len * 0.5))\<close> bits;
  \<^item> for \<open>5 \<le> q < 11\<close> it is the first \<open>max(1, floor(len * 0.7))\<close> bits, except when
    \<open>len = 10 * j\<close> and the largest power of two not above \<open>7 * j - 1\<close> is below
    \<open>4 * j\<close> (90, 170, 180, 330, \<dots>), where the double-precision product falls just
    short of the integer \<open>7 * j\<close> and the result is the first \<open>7 * j - 1\<close> bits;
  and in each case the output length is that number of bits.
\<close>

theorem apply_privacy_amplification_amended:
  fixes key :: "'a list"
  assumes "key \<noteq> []" and "length key < 2 ^ 48"
  shows "(let n = length key;
              j = n div 10;
              shortfall = (n mod 10 = 0 \<and> 2 ^ (bit_length (7 * j - 1) - 1) < 4 * j);
              k = (if q < 5 then nat \<lfloor>real n * 0.9\<rfloor>
                   else if q < 11 then nat \<lfloor>real n * 0.7\<rfloor> - (if shortfall then 1 else 0)
                   else nat \<lfloor>real n * 0.5\<rfloor>)
          in (q < 15 \<longrightarrow> apply_privacy_amplification key q = take (max 1 k) key \<and>
                         length (apply_privacy_amplification key q) = max 1 k) \<and>
             (15 \<le> q \<longrightarrow> apply_privacy_amplification key q = [])) \<and>
         apply_privacy_amplification ([]::'a list) q = []"
proof -
  define n where "n = length key"
  define j where "j = n div 10"
  define shortfall where
    "shortfall \<longleftrightarrow> n mod 10 = 0 \<and> 2 ^ (bit_length (7 * j - 1) - 1) < 4 * j"
  define k where
    "k = (if q < 5 then nat \<lfloor>real n * 0.9\<rfloor>
          else if q < 11 then nat \<lfloor>real n * 0.7\<rfloor> - (if shortfall then 1 else 0)
          else nat \<lfloor>real n * 0.5\<rfloor>)"
  have n0: "0 < n" using assms(1) by (simp add: n_def)
  have n1: "n < 2 ^ 48" using assms(2) by (simp add: n_def)
  have n2: "n < 2 ^ 53" using n1 by simp
  have k2: "k = (if q < 5 then 9 * n div 10
                 else if q < 11 then 7 * n div 10 - (if shortfall then 1 else 0)
                 else n div 2)"
    unfolding k_def floor_nine_tenths floor_seven_tenths floor_half ..
  have "9 * n div 10 \<le> n" "7 * n div 10 \<le> n" "n div 2 \<le> n" by simp_all
  then have kn: "k \<le> n"
    unfolding k2 by (auto intro: le_trans[OF diff_le_self])
  have code: "q < 15 \<Longrightarrow> apply_privacy_amplification key q = take (max 1 k) key"
  proof -
    assume q: "q < 15"
    consider "q < 5" | "5 \<le> q" "q < 11" | "11 \<le> q" "q < 15" using q by linarith
    then show ?thesis
    proof cases
      case 1
      then have "apply_privacy_amplification key q =
          take (max 1 (int_of_float_product n 8106479329266893 53)) key"
        by (simp add: apply_privacy_amplification_def shrink_factor_def n_def)
      moreover have "int_of_float_product n 8106479329266893 53 = k"
        using 1 float_product_nine_tenths[OF n1] by (simp add: k2)
      ultimately show ?thesis by simp
    next
      case 2
      then have "apply_privacy_amplification key q =
          take (max 1 (int_of_float_product n 3152519739159347 52)) key"
        by (simp add: apply_privacy_amplification_def shrink_factor_def n_def)
      moreover have "int_of_float_product n 3152519739159347 52 = k"
        using 2 float_product_seven_tenths_all[OF n0 n1]
        by (simp add: k2 shortfall_def j_def)
      ultimately show ?thesis by simp
    next
      case 3
      then have "apply_privacy_amplification key q =
          take (max 1 (int_of_float_product n 1 1)) key"
        by (simp add: apply_privacy_amplification_def shrink_factor_def n_def)
      moreover have "int_of_float_product n 1 1 = k"
        using 3 float_product_half[OF n2] by (simp add: k2)
      ultimately show ?thesis by simp
    qed
  qed
  have len: "q < 15 \<Longrightarrow> length (apply_privacy_amplification key q) = max 1 k"
  proof -
    assume "q < 15"
    then have "length (apply_privacy_amplification key q) = min n (max 1 k)"
      by (simp add: code n_def)
    then show ?thesis using kn n0 by linarith
  qed
  have abort: "15 \<le> q \<Longrightarrow> apply_privacy_amplification key q = []"
    by (simp add: apply_privacy_amplification_def shrink_factor_def)
  have empty: "apply_privacy_amplification ([]::'a list) q = []"
    by (simp add: apply_privacy_amplification_def shrink_factor_def split: option.splits)
  show ?thesis
    unfolding Let_def n_def[symmetric] j_def[symmetric] shortfall_def[symmetric] k_def[symmetric]
    using code len abort empty by blast
qed

theorem apply_privacy_amplification_amended_witness:
  "apply_privacy_amplification (replicate 90 (1::int)) 3 = replicate 81 1 \<and>
   apply_privacy_amplification (replicate 90 (1::int)) 7 = replicate 62 1 \<and>
   apply_privacy_amplification (replicate 90 (1::int)) 12 = replicate 45 1 \<and>
   apply_privacy_amplification (replicate 90 (1::int)) 20 = []"
proof -
  have a: "apply_privacy_amplification (replicate 90 (1::int)) 3 = replicate 81 1"
    using apply_privacy_amplification_amended [of "replicate 90 (1::int)" 3]
    by (simp add: Let_def)
  have b: "apply_privacy_amplification (replicate 90 (1::int)) 7 = replicate 62 1"
    using apply_privacy_amplification_amended [of "replicate 90 (1::int)" 7]
    by (simp add: Let_def bit_length_62)
  have c: "apply_privacy_amplification (replicate 90 (1::int)) 12 = replicate 45 1"
    using apply_privacy_amplification_amended [of "replicate 90 (1::int)" 12]
    by (simp add: Let_def)
  have d: "apply_privacy_amplification (replicate 90 (1::int)) 20 = []"
    using apply_privacy_amplification_amended [of "replicate 90 (1::int)" 20]
    by (simp add: Let_def)
  from a b c d show ?thesis by blast
qed

section \<open>Hex rendering of the final key\<close>

lemma format_x_nat_digit: "v < 16 \<Longrightarrow> format_x_nat v = [hex_digit v]"
  by (subst format_x_nat.simps) simp

lemma hex_digit_roundtrip:
  assumes "v < 16"
  shows "hex_value (hex_digit v) = v \<and> hex_digit v \<in> hex_chars"
proof -
  from assms have "v = 0 \<or> v = 1 \<or> v = 2 \<or> v = 3 \<or> v = 4 \<or> v = 5 \<or> v = 6 \<or> v = 7 \<or>
      v = 8 \<or> v = 9 \<or> v = 10 \<or> v = 11 \<or> v = 12 \<or> v = 13 \<or> v = 14 \<or> v = 15"
    by presburger
  then show ?thesis
    by (elim disjE) (simp_all add: hex_digit_def hex_value_def hex_chars_def)
qed

lemma nibble_value_4: "nibble_value 0 [a, b, c, d] = 8 * a + 4 * b + 2 * c + d"
  by simp

lemma digit_bits_nibble:
  assumes "a \<in> {0, 1}" "b \<in> {0, 1}" "c \<in> {0, 1}" "d \<in> {0, 1}"
  shows "digit_bits (nat (8 * a + 4 * b + 2 * c + d)) = [a, b, c, d]"
  using assms by (auto simp: digit_bits_def)

lemma nibble_roundtrip:
  assumes "a \<in> {0, 1}" "b \<in> {0, 1}" "c \<in> {0, 1}" "d \<in> {0, 1}"
  shows "hex_to_bits (format_x (nibble_value 0 [a, b, c, d])) = [a, b, c, d] \<and>
         length (format_x (nibble_value 0 [a, b, c, d])) = 1 \<and>
         set (format_x (nibble_value 0 [a, b, c, d])) \<subseteq> hex_chars"
proof -
  let ?v = "8 * a + 4 * b + 2 * c + d"
  have r: "0 \<le> ?v" "nat ?v < 16" using assms by auto
  then have f: "format_x (nibble_value 0 [a, b, c, d]) = [hex_digit (nat ?v)]"
    unfolding nibble_value_4 by (simp add: format_x_def format_x_nat_digit)
  show ?thesis
    using hex_digit_roundtrip [OF r(2)] digit_bits_nibble [OF assms]
    unfolding f by (simp add: hex_to_bits_def)
qed
lemma hex_loop_Nil: "hex_loop [] = []"
  by (simp add: hex_loop.simps)

lemma hex_loop_nibble:
  "hex_loop (a # b # c # d # rest) = format_x (nibble_value 0 [a, b, c, d]) @ hex_loop rest"
  by (subst hex_loop.simps) simp

lemma hex_to_bits_append: "hex_to_bits (s @ t) = hex_to_bits s @ hex_to_bits t"
  by (simp add: hex_to_bits_def)

lemma hex_loop_roundtrip:
  "set p \<subseteq> {0, 1} \<Longrightarrow> length p mod 4 = 0 \<Longrightarrow>
     hex_to_bits (hex_loop p) = p \<and> length (hex_loop p) = length p div 4 \<and>
     set (hex_loop p) \<subseteq> hex_chars"
proof (induction p rule: length_induct)
  case (1 p)
  show ?case
  proof (cases p)
    case Nil
    then show ?thesis by (simp add: hex_loop_Nil hex_to_bits_def)
  next
    case (Cons a p1)
    have "length p \<noteq> 0" using Cons by simp
    with 1(3) have "4 \<le> length p" by presburger
    then obtain b p2 where p1: "p1 = b # p2" using Cons by (cases p1) auto
    with \<open>4 \<le> length p\<close> Cons obtain c p3 where p2: "p2 = c # p3" by (cases p2) auto
    with \<open>4 \<le> length p\<close> Cons p1 obtain d rest where p3: "p3 = d # rest" by (cases p3) auto
    have p: "p = a # b # c # d # rest" using Cons p1 p2 p3 by simp
    have l: "length p = length rest + 4" using p by simp
    have r: "set rest \<subseteq> {0, 1}" using 1(2) p by simp
    have r2: "length rest mod 4 = 0" using 1(3) l by presburger
    have r3: "length rest < length p" using l by simp
    have d4: "length p div 4 = Suc (length rest div 4)" using l by presburger
    have ih: "hex_to_bits (hex_loop rest) = rest \<and> length (hex_loop rest) = length rest div 4 \<and>
              set (hex_loop rest) \<subseteq> hex_chars"
      using 1(1) r r2 r3 by simp
    have n: "hex_to_bits (format_x (nibble_value 0 [a, b, c, d])) = [a, b, c, d] \<and>
         length (format_x (nibble_value 0 [a, b, c, d])) = 1 \<and>
         set (format_x (nibble_value 0 [a, b, c, d])) \<subseteq> hex_chars"
      using 1(2) p by (intro nibble_roundtrip) simp_all
    have hl: "hex_loop p = format_x (nibble_value 0 [a, b, c, d]) @ hex_loop rest"
      unfolding p by (rule hex_loop_nibble)
    have "hex_to_bits (hex_loop p) = [a, b, c, d] @ rest"
      unfolding hl hex_to_bits_append using ih n by simp
    moreover have "length (hex_loop p) = length p div 4"
      unfolding hl d4 using ih n by simp
    moreover have "set (hex_loop p) \<subseteq> hex_chars"
      unfolding hl using ih n by simp
    ultimately show ?thesis using p by simp
  qed
qed

lemma padded_length_mod: "((n::nat) + (4 - n mod 4) mod 4) mod 4 = 0"
proof -
  obtain q r where n: "n = 4 * q + r" and r: "r < 4"
    by (metis mod_less_divisor mult_div_mod_eq zero_less_numeral)
  have m: "n mod 4 = r" using n r by simp
  consider "r = 0" | "r = 1" | "r = 2" | "r = 3" using r by linarith
  then have "(4 * q + r + (4 - r) mod 4) mod 4 = 0"
    by cases simp_all
  then show ?thesis unfolding m unfolding n .
qed

lemma padded_length_div: "((n::nat) + (4 - n mod 4) mod 4) div 4 = (n + 3) div 4"
proof -
  obtain q r where n: "n = 4 * q + r" and r: "r < 4"
    by (metis mod_less_divisor mult_div_mod_eq zero_less_numeral)
  have m: "n mod 4 = r" using n r by simp
  consider "r = 0" | "r = 1" | "r = 2" | "r = 3" using r by linarith
  then have "(4 * q + r + (4 - r) mod 4) div 4 = (4 * q + r + 3) div 4"
    by cases simp_all
  then show ?thesis unfolding m unfolding n .
qed

lemma bits_to_hex_padded: "bits_to_hex bits = hex_loop (pad_to_nibbles bits)"
proof (cases "bits = []")
  case True
  then show ?thesis by (simp add: bits_to_hex_def pad_to_nibbles_def hex_loop_Nil)
next
  case False
  have "length bits mod 4 \<noteq> 0 \<Longrightarrow> (4 - length bits mod 4) mod 4 = 4 - length bits mod 4"
    by simp
  then show ?thesis using False by (simp add: bits_to_hex_def pad_to_nibbles_def)
qed

lemma pad_to_nibbles_props:
  "set bits \<subseteq> {0, 1} \<Longrightarrow> set (pad_to_nibbles bits) \<subseteq> {0, 1}"
  "length (pad_to_nibbles bits) mod 4 = 0"
  "length (pad_to_nibbles bits) div 4 = (length bits + 3) div 4"
  "length bits mod 4 = 0 \<Longrightarrow> pad_to_nibbles bits = bits"
proof -
  show "set bits \<subseteq> {0, 1} \<Longrightarrow> set (pad_to_nibbles bits) \<subseteq> {0, 1}"
    by (auto simp: pad_to_nibbles_def)
  show "length (pad_to_nibbles bits) mod 4 = 0"
    unfolding pad_to_nibbles_def length_append length_replicate by (rule padded_length_mod)
  show "length (pad_to_nibbles bits) div 4 = (length bits + 3) div 4"
    unfolding pad_to_nibbles_def length_append length_replicate by (rule padded_length_div)
  show "length bits mod 4 = 0 \<Longrightarrow> pad_to_nibbles bits = bits"
    by (simp add: pad_to_nibbles_def)
qed

text \<open>
  C9. \<open>bits_to_hex\<close> is a function of its input. For every list of bits it emits one
  lower-case hex digit per nibble of the list right-padded with zeros to a multiple of four
  (so \<open>(len + 3) div 4\<close> digits), most significant bit first: decoding the digits, most
  significant bit first, gives the padded list. In particular, when the length is a
  multiple of four, decoding gives back exactly the original bits.
\<close>

theorem bits_to_hex_roundtrip:
  "set bits \<subseteq> {0, 1} \<longrightarrow>
     hex_to_bits (bits_to_hex bits) = bits @ replicate ((4 - length bits mod 4) mod 4) 0 \<and>
     length (bits_to_hex bits) = (length bits + 3) div 4 \<and>
     set (bits_to_hex bits) \<subseteq> set ''0123456789abcdef'' \<and>
     (length bits mod 4 = 0 \<longrightarrow> hex_to_bits (bits_to_hex bits) = bits)"
proof
  assume b: "set bits \<subseteq> {0, 1}"
  have h: "hex_to_bits (hex_loop (pad_to_nibbles bits)) = pad_to_nibbles bits \<and>
        length (hex_loop (pad_to_nibbles bits)) = length (pad_to_nibbles bits) div 4 \<and>
        set (hex_loop (pad_to_nibbles bits)) \<subseteq> hex_chars"
    using b by (intro hex_loop_roundtrip pad_to_nibbles_props)
  have p: "pad_to_nibbles bits = bits @ replicate ((4 - length bits mod 4) mod 4) 0"
    by (simp add: pad_to_nibbles_def)
  have 1: "hex_to_bits (bits_to_hex bits) = bits @ replicate ((4 - length bits mod 4) mod 4) 0"
    using h by (simp add: bits_to_hex_padded p)
  have 2: "length (bits_to_hex bits) = (length bits + 3) div 4"
    using h pad_to_nibbles_props(3)[of bits] by (simp add: bits_to_hex_padded)
  have 3: "set (bits_to_hex bits) \<subseteq> set ''0123456789abcdef''"
    using h unfolding bits_to_hex_padded hex_chars_def by blast
  have 4: "length bits mod 4 = 0 \<longrightarrow> hex_to_bits (bits_to_hex bits) = bits"
    using 1 by simp
  show "hex_to_bits (bits_to_hex bits) = bits @ replicate ((4 - length bits mod 4) mod 4) 0 \<and>
     length (bits_to_hex bits) = (length bits + 3) div 4 \<and>
     set (bits_to_hex bits) \<subseteq> set ''0123456789abcdef'' \<and>
     (length bits mod 4 = 0 \<longrightarrow> hex_to_bits (bits_to_hex bits) = bits)"
    using 1 2 3 4 by blast
qed

theorem bits_to_hex_roundtrip_witness:
  "set [1, 0, 1, 1, 0, 1, 0, 0] \<subseteq> {0, 1::int} \<and> length [1, 0, 1, 1, 0, 1, 0, 0::int] mod 4 = 0 \<and>
   hex_to_bits (bits_to_hex [1, 0, 1, 1, 0, 1, 0, 0]) = [1, 0, 1, 1, 0, 1, 0, 0]"
proof -
  have a: "set [1, 0, 1, 1, 0, 1, 0, 0] \<subseteq> {0, 1::int}" by simp
  have b: "length [1, 0, 1, 1, 0, 1, 0, 0::int] mod 4 = 0" by simp
  from bits_to_hex_roundtrip [of "[1, 0, 1, 1, 0, 1, 0, 0]"] a b
  have "hex_to_bits (bits_to_hex [1, 0, 1, 1, 0, 1, 0, 0]) = [1, 0, 1, 1, 0, 1, 0, 0]"
    by blast
  with a b show ?thesis by blast
qed

section \<open>QBER estimation\<close>










section \<open>The transport stages on constant streams\<close>

lemma random_bits_constant:
  "random_bits n (constant_rng c) = (replicate n (int (c mod 2)), constant_rng c)"
  by (induction n) (simp_all add: random_randint01_def del: constant_rng_apply, simp_all)

lemma random_basis_constant:
  "random_basis (constant_rng c) =
     (if c mod 2 = 0 then RECTILINEAR else DIAGONAL, constant_rng c)"
  by (simp add: random_basis_def random_choice_pair del: constant_rng_apply) simp

lemma generate_random_bases_constant:
  "generate_random_bases n (constant_rng c) =
     (replicate n (if c mod 2 = 0 then RECTILINEAR else DIAGONAL), constant_rng c)"
  by (induction n) (simp_all add: random_basis_constant del: constant_rng_apply)




lemma calculate_total_loss_rng: "snd (calculate_total_loss ch src) = rng_tail src"
  by (simp add: calculate_total_loss_def random_uniform_def random_random_def Let_def)

lemma calculate_total_loss_bounds:
  assumes "0 \<le> d"
  shows "0.15 \<le> fst (calculate_total_loss (AtmosphericChannel_init d) src)"
    and "fst (calculate_total_loss (AtmosphericChannel_init d) src) \<le> 0.95"
proof -
  define u where "u = fst (random_random src)"
  have u: "0 \<le> u" using random_random_unit[of src] by (simp add: u_def)
  define E where "E = exp (- (0.0001 * d))"
  have e: "E \<le> 1" using assms by (simp add: E_def)
  have l: "fst (calculate_total_loss (AtmosphericChannel_init d) src) =
      min 0.95 (1 - E + 0.15 + 0.05 * u)"
    by (simp add: calculate_total_loss_def AtmosphericChannel_init_def random_uniform_def
        Let_def case_prod_beta u_def E_def)
  have "0.15 \<le> 1 - E + 0.15 + 0.05 * u" using u e by simp
  then show "0.15 \<le> fst (calculate_total_loss (AtmosphericChannel_init d) src)"
    unfolding l by simp
  show "fst (calculate_total_loss (AtmosphericChannel_init d) src) \<le> 0.95"
    unfolding l by (rule min.cobounded1)
qed

lemma transmit_loop_constant_0:
  "0 \<le> loss \<Longrightarrow> fst (transmit_loop ch loss photons h (constant_rng 0)) = []"
proof (induction photons arbitrary: h)
  case Nil
  then show ?case by simp
next
  case (Cons p ps)
  have "random_random (constant_rng 0) = (0, constant_rng 0)"
    by (simp add: random_random_def del: constant_rng_apply) simp
  then show ?case using Cons by (simp del: constant_rng_apply)
qed

lemma apply_weather_effects_Nil: "apply_weather_effects [] w src = Inl ZeroDivisionError"
  by (simp add: apply_weather_effects_def Let_def split: option.splits)


lemma weather_stage_empty:
  "bob_received_photons s = [] \<Longrightarrow> apply_weather_effects_stage s src = Inl ZeroDivisionError"
  by (simp add: apply_weather_effects_stage_def apply_weather_effects_Nil)

lemma alice_prepare_constant:
  "snd (alice_prepare s (constant_rng c)) = constant_rng c"
  by (simp add: alice_prepare_def random_bits_constant generate_random_bases_constant
      case_prod_beta del: constant_rng_apply)

lemma alice_prepare_frame:
  "num_bits (fst (alice_prepare s src)) = num_bits s"
  "eve_active (fst (alice_prepare s src)) = eve_active s"
  "eve (fst (alice_prepare s src)) = eve s"
  "atmosphere (fst (alice_prepare s src)) = atmosphere s"
  "weather (fst (alice_prepare s src)) = weather s"
  by (simp_all add: alice_prepare_def case_prod_beta)


lemma init_fields:
  "num_bits (BB84Protocol_init n active rate attack d w tod ap) = n"
  "eve_active (BB84Protocol_init n active rate attack d w tod ap) = active"
  "eve (BB84Protocol_init n active rate attack d w tod ap) =
     (if active then Some (EveAttack_init rate) else None)"
  "atmosphere (BB84Protocol_init n active rate attack d w tod ap) = AtmosphericChannel_init d"
  "weather (BB84Protocol_init n active rate attack d w tod ap) = w"
  "eve_attack_type (BB84Protocol_init n active rate attack d w tod ap) = attack"
  "store (BB84Protocol_init n active rate attack d w tod ap) = []"
  by (simp_all add: BB84Protocol_init_def)

lemma atmospheric_transmission_constant_0:
  assumes "atmosphere s = AtmosphericChannel_init d" and "0 \<le> d"
  shows "bob_received_photons (fst (atmospheric_transmission s (constant_rng 0))) = []"
proof -
  have "(0::real) \<le> 0.15" by simp
  also have "0.15 \<le> fst (calculate_total_loss (AtmosphericChannel_init d) (constant_rng 0))"
    using assms(2) by (rule calculate_total_loss_bounds(1))
  finally show ?thesis
    by (simp add: atmospheric_transmission_def transmit_photons_def case_prod_beta assms(1)
        calculate_total_loss_rng transmit_loop_constant_0 del: constant_rng_apply)
qed

lemma transport_stages_constant_0:
  assumes "0 \<le> d"
  shows "transport_stages (BB84Protocol_init n False rate attack d w tod ap) (constant_rng 0) =
           Inl ZeroDivisionError"
proof -
  define s0 where "s0 = BB84Protocol_init n False rate attack d w tod ap"
  define s1 where "s1 = fst (alice_prepare s0 (constant_rng 0))"
  have ap: "alice_prepare s0 (constant_rng 0) = (s1, constant_rng 0)"
    by (simp add: s1_def prod_eq_iff alice_prepare_constant)
  have e1: "eve_active s1 = False" by (simp add: s1_def alice_prepare_frame s0_def init_fields)
  have a1: "atmosphere s1 = AtmosphericChannel_init d"
    by (simp add: s1_def alice_prepare_frame s0_def init_fields)
  define s3 where "s3 = fst (atmospheric_transmission s1 (constant_rng 0))"
  define src3 where "src3 = snd (atmospheric_transmission s1 (constant_rng 0))"
  have at: "atmospheric_transmission s1 (constant_rng 0) = (s3, src3)"
    by (simp add: s3_def src3_def)
  have "bob_received_photons s3 = []"
    unfolding s3_def using a1 assms by (rule atmospheric_transmission_constant_0)
  then have "apply_weather_effects_stage s3 src3 = Inl ZeroDivisionError"
    by (rule weather_stage_empty)
  then show ?thesis
    unfolding transport_stages_def s0_def[symmetric] by (simp add: ap e1 at)
qed

text \<open>
  C3 fails. With the default configuration (256 bits, no Eve, 500 km, clear sky) and a
  random source whose every draw is 0, every photon is lost in the atmosphere (the loss
  probability is at least 0.15, and a photon survives only on a draw above it), the
  weather stage is handed an empty list and divides by its length: \<open>run_protocol\<close>
  raises \<open>ZeroDivisionError\<close> instead of returning a trace.
\<close>

theorem run_protocol_raises_when_no_photon_survives:
  "run_protocol (BB84Protocol_init 256 False 0.5 ''intercept_resend'' 500 ''clear'' ''night'' 30)
     (constant_rng 0) = Inl ZeroDivisionError"
  by (simp add: run_protocol_def transport_stages_constant_0)

section \<open>Error testing and the trace\<close>








section \<open>Measurement and the rest of the run never fail\<close>


lemma measure_photon_rng: "snd (measure_photon b pb mb src) = rng_tail src"
  by (simp add: measure_photon_def random_random_def random_choice_def Let_def)





section \<open>The weather stage\<close>










end
